theory Spec2Isabelle
  imports Main
begin

section \<open>Data model (news/models.py)\<close>

text \<open>
  Timestamps are points on a linear time axis, counted in microseconds (the resolution of
  a Python \<open>datetime\<close>). A nullable \<open>DateTimeField\<close> is a \<open>timestamp option\<close>; a
  \<open>datetime\<close> object is always truthy, so the Python test \<open>not self.published_at\<close>
  is exactly \<open>published_at = None\<close>.

  Python strings are modelled as \<open>string\<close>; a \<open>char\<close> stands for a code point below 256.
\<close>

type_synonym timestamp = int

datatype status_choice = Draft | Published | Archived

datatype featured_choice = Normal | Featured | Trending | Breaking

datatype frequency_choice = Daily | Weekly | Monthly

record category =
  category_pk :: nat
  category_name :: string
  category_slug :: string
  category_is_active :: bool

record tag =
  tag_pk :: nat
  tag_name :: string
  tag_slug :: string

text \<open>
  An article row. The foreign key \<open>category\<close> and the many-to-many \<open>tags\<close> hold the
  referenced rows themselves, as the ORM objects do; \<open>author\<close> is the user's primary
  key. Columns that no modelled operation reads (image fields, \<open>meta_keywords\<close>,
  \<open>updated_at\<close>) are left out.
\<close>

record article =
  pk :: nat
  title :: string
  slug :: string
  content :: string
  excerpt :: string
  author :: nat
  category :: category
  tags :: "tag list"
  status :: status_choice
  featured :: featured_choice
  is_published :: bool
  created_at :: timestamp
  published_at :: "timestamp option"
  meta_description :: string
  view_count :: nat
  share_count :: nat
  reading_time :: nat

section \<open>Python string helpers\<close>

text \<open>
  \<open>str.isspace\<close> on code points below 256: tab, newline, vertical tab, form feed,
  carriage return, the separators 0x1C..0x1F, space, NEL (0x85) and no-break space (0xA0).
\<close>

definition isspace :: "char \<Rightarrow> bool" where
  "isspace c =
     (c \<in> {CHR 0x09, CHR 0x0A, CHR 0x0B, CHR 0x0C, CHR 0x0D, CHR 0x1C, CHR 0x1D, CHR 0x1E,
            CHR 0x1F, CHR 0x20, CHR 0x85, CHR 0xA0})"

text \<open>
  \<open>str.split()\<close> without arguments: runs of whitespace separate the words, and leading
  and trailing whitespace yields no empty word. \<open>cur\<close> is the word being read, reversed.
\<close>

fun split_from :: "string \<Rightarrow> string \<Rightarrow> string list" where
  "split_from cur [] = (if cur = [] then [] else [rev cur])"
| "split_from cur (c # cs) =
     (if isspace c
      then (if cur = [] then split_from [] cs else rev cur # split_from [] cs)
      else split_from (c # cur) cs)"

definition py_split :: "string \<Rightarrow> string list" where
  "py_split s = split_from [] s"

text \<open>
  The specification's word count, stated on positions: a word starts at every index that
  holds a non-whitespace character and is either the first index or preceded by whitespace.
\<close>

definition wordCount :: "string \<Rightarrow> nat" where
  "wordCount s =
     length (filter (\<lambda>i. \<not> isspace (s ! i) \<and> (i = 0 \<or> isspace (s ! (i - 1)))) [0..<length s])"

section \<open>Article.save (news/models.py)\<close>

text \<open>
  The derivation pipeline that \<open>Article.save\<close> runs on the object before it calls
  \<open>super().save\<close>. \<open>slugify\<close> is Django's function, taken as a parameter; \<open>now\<close> is the
  value of \<open>timezone.now()\<close> at the call.
\<close>

definition save :: "(string \<Rightarrow> string) \<Rightarrow> timestamp \<Rightarrow> article \<Rightarrow> article" where
  "save slugify now self0 =
     (let self1 = (if slug self0 = [] then self0\<lparr>slug := slugify (title self0)\<rparr> else self0);
          self2 = (if excerpt self1 = [] \<and> content self1 \<noteq> []
                   then self1\<lparr>excerpt :=
                          (if length (content self1) > 200
                           then take 200 (content self1) @ ''...''
                           else content self1)\<rparr>
                   else self1);
          self3 = (if meta_description self2 = [] \<and> excerpt self2 \<noteq> []
                   then self2\<lparr>meta_description := take 160 (excerpt self2)\<rparr>
                   else self2);
          word_count = length (py_split (content self3));
          self4 = self3\<lparr>reading_time := max 1 (word_count div 200)\<rparr>
      in if status self4 = Published \<and> published_at self4 = None
         then self4\<lparr>published_at := Some now, is_published := True\<rparr>
         else self4)"

section \<open>Query helpers (Django ORM)\<close>

text \<open>
  The universal visibility predicate of the public views:
  \<open>filter(status='published', is_published=True)\<close>.
\<close>

definition visible :: "article \<Rightarrow> bool" where
  "visible a = (status a = Published \<and> is_published a)"

text \<open>
  \<open>ORDER BY\<close>: a stable insertion sort over the rows in table order. \<open>before x y\<close> says
  that the ordering allows \<open>x\<close> in front of \<open>y\<close>. Rows that the ordering does not
  distinguish keep the order in which the table yields them; SQL leaves that order open,
  and the list order of the table stands for it.
\<close>

fun insert_by :: "('a \<Rightarrow> 'a \<Rightarrow> bool) \<Rightarrow> 'a \<Rightarrow> 'a list \<Rightarrow> 'a list" where
  "insert_by before x [] = [x]"
| "insert_by before x (y # ys) =
     (if before x y then x # y # ys else y # insert_by before x ys)"

definition sort_by :: "('a \<Rightarrow> 'a \<Rightarrow> bool) \<Rightarrow> 'a list \<Rightarrow> 'a list" where
  "sort_by before xs = foldr (insert_by before) xs []"

text \<open>
  Descending order on a nullable column, NULL sorting below every value (SQLite, the
  backend of a default Django project): \<open>desc_nullable x y\<close> holds when \<open>y \<le> x\<close>.
\<close>

fun desc_nullable :: "'a::linorder option \<Rightarrow> 'a option \<Rightarrow> bool" where
  "desc_nullable x None = True"
| "desc_nullable None (Some v) = False"
| "desc_nullable (Some u) (Some v) = (v \<le> u)"

text \<open>\<open>order_by('-published_at')\<close>, as \<open>ArticleListView\<close> and \<open>SearchView\<close> request it.\<close>

definition order_by_published_at_desc :: "article list \<Rightarrow> article list" where
  "order_by_published_at_desc rows =
     sort_by (\<lambda>a b. desc_nullable (published_at a) (published_at b)) rows"

text \<open>\<open>Article.Meta.ordering = ['-published_at', '-created_at']\<close>, the default ordering.\<close>

definition meta_before :: "article \<Rightarrow> article \<Rightarrow> bool" where
  "meta_before a b =
     (if published_at a = published_at b then created_at b \<le> created_at a
      else desc_nullable (published_at a) (published_at b))"

definition meta_ordering :: "article list \<Rightarrow> article list" where
  "meta_ordering rows = sort_by meta_before rows"

text \<open>\<open>order_by('-view_count')\<close>.\<close>

definition order_by_view_count_desc :: "article list \<Rightarrow> article list" where
  "order_by_view_count_desc rows = sort_by (\<lambda>a b. view_count b \<le> view_count a) rows"

text \<open>
  A LEFT OUTER JOIN of an article with its tags yields one row per tag, or a single row
  with a NULL tag when the article has none.
\<close>

definition left_join_tags :: "article \<Rightarrow> tag option list" where
  "left_join_tags a = (if tags a = [] then [None] else map Some (tags a))"

text \<open>
  \<open>icontains\<close>: a case-insensitive substring test. SQLite's \<open>LIKE\<close> folds the case of
  the ASCII letters only.
\<close>

definition ascii_lower :: "char \<Rightarrow> char" where
  "ascii_lower c =
     (if 65 \<le> (of_char c :: nat) \<and> (of_char c :: nat) \<le> 90 then char_of (of_char c + 32 :: nat) else c)"

definition icontains :: "string \<Rightarrow> string \<Rightarrow> bool" where
  "icontains hay needle =
     list_ex (\<lambda>i. take (length needle) (drop i (map ascii_lower hay)) = map ascii_lower needle)
       [0..<Suc (length hay)]"

text \<open>
  A request parameter read with \<open>request.GET.get\<close> and tested with \<open>if value:\<close>: a missing
  parameter and an empty string both skip the filter.
\<close>

fun given :: "string option \<Rightarrow> string option" where
  "given None = None"
| "given (Some s) = (if s = [] then None else Some s)"

text \<open>
  The \<open>__date\<close> transform: the day number of a timestamp, read in the site's time zone.
\<close>

definition date_of :: "timestamp \<Rightarrow> int" where
  "date_of t = t div 86400000000"

datatype error =
    Http404
  | LoginRedirect
  | MethodNotAllowed
  | IntegrityError
  | MultipleObjectsReturned
  | ValidationError

text \<open>
  \<open>get_object_or_404\<close> over the rows that satisfy the lookup: \<open>QuerySet.get\<close> fails when
  there is no such row (turned into a 404) or more than one.
\<close>

definition get_object_or_404 :: "('a \<Rightarrow> bool) \<Rightarrow> 'a list \<Rightarrow> error + 'a" where
  "get_object_or_404 lookup rows =
     (case filter lookup rows of
        [] \<Rightarrow> Inl Http404
      | [x] \<Rightarrow> Inr x
      | _ \<Rightarrow> Inl MultipleObjectsReturned)"

section \<open>Content queries (news/views.py, news/models.py)\<close>

text \<open>
  The GET parameters of the article list. The two date bounds reach the ORM as raw
  strings; \<open>parse_date\<close> is the conversion of the \<open>DateField\<close> lookup (a day number, or
  \<open>None\<close> for a malformed date, on which the lookup raises \<open>ValidationError\<close>).
\<close>

record list_request =
  q :: "string option"
  category_param :: "string option"
  tag_param :: "string option"
  date_from :: "string option"
  date_to :: "string option"

definition search_rows :: "string \<Rightarrow> article \<Rightarrow> article list" where
  "search_rows search_query a =
     map (\<lambda>_. a)
       (filter (\<lambda>t. icontains (title a) search_query \<or> icontains (content a) search_query
                    \<or> icontains (excerpt a) search_query
                    \<or> (case t of None \<Rightarrow> False | Some t' \<Rightarrow> icontains (tag_name t') search_query))
          (left_join_tags a))"

definition tag_rows :: "string \<Rightarrow> article \<Rightarrow> article list" where
  "tag_rows tag_slug' a = map (\<lambda>_. a) (filter (\<lambda>t. tag_slug t = tag_slug') (tags a))"

definition date_bound ::
  "(string \<Rightarrow> int option) \<Rightarrow> string option \<Rightarrow> (int \<Rightarrow> int \<Rightarrow> bool) \<Rightarrow> article list \<Rightarrow> error + article list"
where
  "date_bound parse_date param cmp rows =
     (case given param of
        None \<Rightarrow> Inr rows
      | Some s \<Rightarrow>
          (case parse_date s of
             None \<Rightarrow> Inl ValidationError
           | Some d \<Rightarrow>
               Inr (filter (\<lambda>a. case published_at a of None \<Rightarrow> False
                                 | Some t \<Rightarrow> cmp (date_of t) d) rows)))"

text \<open>\<open>ArticleListView.get_queryset\<close>.\<close>

definition ArticleListView_get_queryset ::
  "(string \<Rightarrow> int option) \<Rightarrow> list_request \<Rightarrow> article list \<Rightarrow> error + article list"
where
  "ArticleListView_get_queryset parse_date request table =
     (let queryset0 = filter visible table;
          queryset1 = (case given (q request) of
                         None \<Rightarrow> queryset0
                       | Some search_query \<Rightarrow> concat (map (search_rows search_query) queryset0));
          queryset2 = (case given (category_param request) of
                         None \<Rightarrow> queryset1
                       | Some category_slug' \<Rightarrow>
                           filter (\<lambda>a. category_slug (category a) = category_slug') queryset1);
          queryset3 = (case given (tag_param request) of
                         None \<Rightarrow> queryset2
                       | Some tag_slug' \<Rightarrow> concat (map (tag_rows tag_slug') queryset2))
      in case date_bound parse_date (date_from request) (\<lambda>d bound. bound \<le> d) queryset3 of
           Inl e \<Rightarrow> Inl e
         | Inr queryset4 \<Rightarrow>
             (case date_bound parse_date (date_to request) (\<lambda>d bound. d \<le> bound) queryset4 of
                Inl e \<Rightarrow> Inl e
              | Inr queryset5 \<Rightarrow>
                  Inr (order_by_published_at_desc
                         (if given (q request) = None then queryset5 else remdups queryset5))))"

text \<open>
  \<open>ArticleDetailView\<close>: \<open>get_queryset\<close> keeps the visible articles and \<open>get_object\<close>
  looks the slug up among them.
\<close>

definition ArticleDetailView_get_object :: "string \<Rightarrow> article list \<Rightarrow> error + article" where
  "ArticleDetailView_get_object slug' table =
     get_object_or_404 (\<lambda>a. slug a = slug') (filter visible table)"

text \<open>\<open>Article.get_related_articles\<close>.\<close>

definition get_related_articles :: "article \<Rightarrow> nat \<Rightarrow> article list \<Rightarrow> article list" where
  "get_related_articles self limit table =
     take limit
       (meta_ordering
          (remdups
             (filter (\<lambda>a. pk a \<noteq> pk self)
                (concat (map (\<lambda>a. map (\<lambda>_. a)
                   (filter (\<lambda>t. category_pk (category a) = category_pk (category self)
                                \<or> (case t of None \<Rightarrow> False
                                    | Some t' \<Rightarrow> tag_pk t' \<in> set (map tag_pk (tags self))))
                      (left_join_tags a))) table)))))"

text \<open>The two highlight queries of \<open>HomeView.get_context_data\<close>.\<close>

definition featured_articles :: "article list \<Rightarrow> article list" where
  "featured_articles table =
     take 6 (meta_ordering
       (filter (\<lambda>a. visible a \<and> featured a \<in> {Featured, Trending, Breaking}) table))"

definition trending_articles :: "timestamp \<Rightarrow> article list \<Rightarrow> article list" where
  "trending_articles now table =
     (let week_ago = now - 7 * 86400000000
      in take 5 (order_by_view_count_desc
           (filter (\<lambda>a. visible a \<and> (case published_at a of None \<Rightarrow> False
                                       | Some t \<Rightarrow> week_ago \<le> t)) table)))"

section \<open>Requests and table writes\<close>

datatype http_method = GET | POST

text \<open>
  \<open>request.user\<close> is \<open>None\<close> for the anonymous user. \<open>login_required\<close> lets every
  authenticated user through; \<open>staff_member_required\<close> asks for an active staff account.
\<close>

record user =
  user_pk :: nat
  user_is_active :: bool
  user_is_staff :: bool

definition staff_member :: "user option \<Rightarrow> bool" where
  "staff_member request_user =
     (case request_user of None \<Rightarrow> False | Some u \<Rightarrow> user_is_active u \<and> user_is_staff u)"

text \<open>\<open>QuerySet.filter(...).update(...)\<close>: one UPDATE statement over the matching rows.\<close>

definition update_where :: "('a \<Rightarrow> bool) \<Rightarrow> ('a \<Rightarrow> 'a) \<Rightarrow> 'a list \<Rightarrow> 'a list" where
  "update_where lookup assign rows = map (\<lambda>r. if lookup r then assign r else r) rows"

text \<open>
  \<open>Model.save\<close> of an article object that carries a primary key: the row with that key
  is overwritten, and a key without a row is inserted.
\<close>

definition Model_save :: "article \<Rightarrow> article list \<Rightarrow> article list" where
  "Model_save obj table =
     (if pk obj \<in> set (map pk table)
      then update_where (\<lambda>r. pk r = pk obj) (\<lambda>_. obj) table
      else table @ [obj])"

section \<open>Editing articles (news/forms.py, news/admin.py, news/models.py)\<close>

text \<open>
  The cleaned data of a valid \<open>ArticleForm\<close>; its \<open>Meta.fields\<close> are title, content,
  excerpt, category, tags, the image fields, status, \<open>meta_description\<close> and
  \<open>meta_keywords\<close>.
\<close>

record article_form =
  form_title :: string
  form_content :: string
  form_excerpt :: string
  form_category :: category
  form_tags :: "tag list"
  form_status :: status_choice
  form_meta_description :: string

text \<open>
  \<open>ArticleForm.save(commit=True)\<close> on an instance: the form fields are written to the
  object, \<open>author\<close> is set when the form was built with a user, the object is saved and
  \<open>save_m2m\<close> stores the tags.
\<close>

definition ArticleForm_save ::
  "(string \<Rightarrow> string) \<Rightarrow> timestamp \<Rightarrow> nat option \<Rightarrow> article_form \<Rightarrow> article \<Rightarrow> article"
where
  "ArticleForm_save slugify now form_user form instance =
     (let article0 = instance\<lparr>title := form_title form, content := form_content form,
                              excerpt := form_excerpt form, category := form_category form,
                              status := form_status form,
                              meta_description := form_meta_description form\<rparr>;
          article1 = (case form_user of None \<Rightarrow> article0 | Some u \<Rightarrow> article0\<lparr>author := u\<rparr>);
          article2 = save slugify now article1
      in article2\<lparr>tags := form_tags form\<rparr>)"

text \<open>
  \<open>admin_article_edit\<close> (and \<open>ArticleUpdateView\<close>) on a valid POST: the row is fetched,
  run through \<open>ArticleForm.save\<close> (the views pass no user to the form) and written back.
\<close>

definition admin_article_edit ::
  "(string \<Rightarrow> string) \<Rightarrow> timestamp \<Rightarrow> nat \<Rightarrow> article_form \<Rightarrow> article list \<Rightarrow> article list"
where
  "admin_article_edit slugify now article_id form table =
     (case get_object_or_404 (\<lambda>a. pk a = article_id) table of
        Inl e \<Rightarrow> table
      | Inr article \<Rightarrow> Model_save (ArticleForm_save slugify now None form article) table)"

text \<open>
  The change form of \<open>ArticleAdmin\<close>: its fieldsets, without the read-only fields, are the
  editable fields, among them \<open>is_published\<close> and \<open>published_at\<close>. The admin writes the
  posted values to the object and calls \<open>save_model\<close>, which sets the author of a new
  article and saves.
\<close>

record admin_form =
  admin_title :: string
  admin_slug :: string
  admin_content :: string
  admin_excerpt :: string
  admin_author :: nat
  admin_category :: category
  admin_tags :: "tag list"
  admin_status :: status_choice
  admin_featured :: featured_choice
  admin_is_published :: bool
  admin_published_at :: "timestamp option"
  admin_meta_description :: string

definition ArticleAdmin_save_model ::
  "(string \<Rightarrow> string) \<Rightarrow> timestamp \<Rightarrow> user \<Rightarrow> article \<Rightarrow> bool \<Rightarrow> article"
where
  "ArticleAdmin_save_model slugify now request_user obj change =
     save slugify now (if \<not> change then obj\<lparr>author := user_pk request_user\<rparr> else obj)"

definition ArticleAdmin_change ::
  "(string \<Rightarrow> string) \<Rightarrow> timestamp \<Rightarrow> user \<Rightarrow> admin_form \<Rightarrow> article \<Rightarrow> article"
where
  "ArticleAdmin_change slugify now request_user form instance =
     (let obj = instance\<lparr>title := admin_title form, slug := admin_slug form,
                         content := admin_content form, excerpt := admin_excerpt form,
                         author := admin_author form, category := admin_category form,
                         status := admin_status form, featured := admin_featured form,
                         is_published := admin_is_published form,
                         published_at := admin_published_at form,
                         meta_description := admin_meta_description form\<rparr>
      in (ArticleAdmin_save_model slugify now request_user obj True)\<lparr>tags := admin_tags form\<rparr>)"

text \<open>
  \<open>increment_view_count\<close> and \<open>increment_share_count\<close>: the counter is raised on the
  object and \<open>save(update_fields=[...])\<close> runs \<open>Article.save\<close> on it, but writes the one
  named column only. The result is the object and the table.
\<close>

definition increment_view_count ::
  "(string \<Rightarrow> string) \<Rightarrow> timestamp \<Rightarrow> article \<Rightarrow> article list \<Rightarrow> article \<times> article list"
where
  "increment_view_count slugify now self table =
     (let self' = save slugify now (self\<lparr>view_count := view_count self + 1\<rparr>)
      in (self', update_where (\<lambda>r. pk r = pk self') (\<lambda>r. r\<lparr>view_count := view_count self'\<rparr>) table))"

definition increment_share_count ::
  "(string \<Rightarrow> string) \<Rightarrow> timestamp \<Rightarrow> article \<Rightarrow> article list \<Rightarrow> article \<times> article list"
where
  "increment_share_count slugify now self table =
     (let self' = save slugify now (self\<lparr>share_count := share_count self + 1\<rparr>)
      in (self', update_where (\<lambda>r. pk r = pk self') (\<lambda>r. r\<lparr>share_count := share_count self'\<rparr>) table))"

text \<open>
  The table effect of a GET on \<open>ArticleDetailView\<close> (\<open>get_context_data\<close> counts the
  view) and of the share endpoint, which looks the slug up among all articles.
\<close>

definition ArticleDetailView_get ::
  "(string \<Rightarrow> string) \<Rightarrow> timestamp \<Rightarrow> string \<Rightarrow> article list \<Rightarrow> article list"
where
  "ArticleDetailView_get slugify now slug' table =
     (case ArticleDetailView_get_object slug' table of
        Inl e \<Rightarrow> table
      | Inr article \<Rightarrow> snd (increment_view_count slugify now article table))"

definition increment_share_count_view ::
  "(string \<Rightarrow> string) \<Rightarrow> timestamp \<Rightarrow> string \<Rightarrow> article list \<Rightarrow> article list"
where
  "increment_share_count_view slugify now article_slug table =
     (case get_object_or_404 (\<lambda>a. slug a = article_slug) table of
        Inl e \<Rightarrow> table
      | Inr article \<Rightarrow> snd (increment_share_count slugify now article table))"

section \<open>Bulk actions (news/admin_views.py)\<close>

text \<open>
  The effect of \<open>admin_bulk_actions\<close> on the article table. The actions
  \<open>approve_comments\<close>, \<open>delete_comments\<close> and \<open>mark_contacts_read\<close> write other tables,
  and an unknown action writes nothing. \<open>selected_items\<close> are the posted primary keys.
\<close>

definition admin_bulk_actions ::
  "user option \<Rightarrow> http_method \<Rightarrow> string \<Rightarrow> nat list \<Rightarrow> timestamp \<Rightarrow> article list \<Rightarrow> article list"
where
  "admin_bulk_actions request_user method action selected_items now table =
     (if \<not> staff_member request_user then table
      else if method = POST then
        (if action = ''publish_articles'' then
           update_where (\<lambda>a. pk a \<in> set selected_items)
             (\<lambda>a. a\<lparr>status := Published, is_published := True, published_at := Some now\<rparr>) table
         else if action = ''unpublish_articles'' then
           update_where (\<lambda>a. pk a \<in> set selected_items) (\<lambda>a. a\<lparr>is_published := False\<rparr>) table
         else table)
      else table)"

text \<open>
  The operations that write the article table outside the \<open>ArticleAdmin\<close> change form,
  and a run of them in sequence.
\<close>

datatype article_op =
    Edit nat article_form timestamp
  | View string timestamp
  | Share string timestamp
  | Bulk "user option" http_method string "nat list" timestamp

fun apply_op :: "(string \<Rightarrow> string) \<Rightarrow> article_op \<Rightarrow> article list \<Rightarrow> article list" where
  "apply_op slugify (Edit article_id form now) table = admin_article_edit slugify now article_id form table"
| "apply_op slugify (View slug' now) table = ArticleDetailView_get slugify now slug' table"
| "apply_op slugify (Share slug' now) table = increment_share_count_view slugify now slug' table"
| "apply_op slugify (Bulk request_user method action selected_items now) table =
     admin_bulk_actions request_user method action selected_items now table"

fun run_ops :: "(string \<Rightarrow> string) \<Rightarrow> article_op list \<Rightarrow> article list \<Rightarrow> article list" where
  "run_ops slugify [] table = table"
| "run_ops slugify (op # ops) table = run_ops slugify ops (apply_op slugify op table)"

text \<open>Whether an operation is a bulk \<open>publish_articles\<close> that names the article.\<close>

fun publishes :: "nat \<Rightarrow> article_op \<Rightarrow> bool" where
  "publishes article_id (Bulk request_user method action selected_items now) =
     (action = ''publish_articles'' \<and> article_id \<in> set selected_items)"
| "publishes article_id _ = False"


section \<open>Comments (news/models.py, news/forms.py, news/views.py, news/admin_views.py)\<close>

text \<open>
  A comment object. \<open>comment_pk\<close> is \<open>None\<close> until the object is inserted. The columns
  \<open>article\<close> and \<open>author\<close> are foreign keys without \<open>null=True\<close>: an object may lack
  them, a stored row may not. \<open>created_at\<close> and \<open>updated_at\<close> are left out.
\<close>

record comment =
  comment_pk :: "nat option"
  comment_article :: "nat option"
  comment_author :: "nat option"
  parent :: "nat option"
  comment_content :: string
  is_approved :: bool
  is_highlighted :: bool
  is_moderated :: bool
  moderated_by :: "nat option"
  moderated_at :: "timestamp option"

text \<open>
  The object a \<open>ModelForm\<close> with \<open>fields = ['content']\<close> builds: the cleaned content, and
  every other field at the default that \<open>Comment\<close> declares.
\<close>

definition Comment_init :: "string \<Rightarrow> comment" where
  "Comment_init content' =
     \<lparr>comment_pk = None, comment_article = None, comment_author = None, parent = None,
      comment_content = content', is_approved = True, is_highlighted = False,
      is_moderated = False, moderated_by = None, moderated_at = None\<rparr>"

text \<open>\<open>str.strip()\<close>, which the form's character field applies to the posted text.\<close>

definition strip :: "string \<Rightarrow> string" where
  "strip s = rev (dropWhile isspace (rev (dropWhile isspace s)))"

text \<open>
  \<open>is_valid()\<close> of \<open>CommentForm\<close> and \<open>ReplyForm\<close>: the stripped content is required,
  holds no NUL character, and passes \<open>MinLengthValidator(10)\<close>.
\<close>

definition content_is_valid :: "string \<Rightarrow> bool" where
  "content_is_valid posted =
     (strip posted \<noteq> [] \<and> CHR 0x00 \<notin> set (strip posted) \<and> 10 \<le> length (strip posted))"

definition next_pk :: "comment list \<Rightarrow> nat" where
  "next_pk rows = Suc (foldr max (map (\<lambda>r. case comment_pk r of None \<Rightarrow> 0 | Some k \<Rightarrow> k) rows) 0)"

text \<open>
  \<open>Model.save\<close> of a comment: the database refuses a row without article or author
  (NOT NULL); an object without primary key is inserted under a fresh key, one with a key
  overwrites its row.
\<close>

definition Comment_save :: "comment \<Rightarrow> comment list \<Rightarrow> error + comment list" where
  "Comment_save obj rows =
     (if comment_article obj = None \<or> comment_author obj = None then Inl IntegrityError
      else case comment_pk obj of
             None \<Rightarrow> Inr (rows @ [obj\<lparr>comment_pk := Some (next_pk rows)\<rparr>])
           | Some k \<Rightarrow>
               (if Some k \<in> set (map comment_pk rows)
                then Inr (update_where (\<lambda>r. comment_pk r = Some k) (\<lambda>_. obj) rows)
                else Inr (rows @ [obj])))"

text \<open>\<open>CommentForm.save(commit=False)\<close>.\<close>

definition CommentForm_save :: "string \<Rightarrow> user option \<Rightarrow> comment" where
  "CommentForm_save cleaned_content form_user =
     (let comment0 = Comment_init cleaned_content
      in case form_user of
           None \<Rightarrow> comment0
         | Some u \<Rightarrow> comment0\<lparr>comment_author := Some (user_pk u)\<rparr>)"

text \<open>\<open>add_comment\<close>, under \<open>login_required\<close> and \<open>require_POST\<close>.\<close>

definition add_comment ::
  "user option \<Rightarrow> http_method \<Rightarrow> string \<Rightarrow> string \<Rightarrow> article list \<Rightarrow> comment list \<Rightarrow> error + comment list"
where
  "add_comment request_user method article_slug posted articles rows =
     (case request_user of
        None \<Rightarrow> Inl LoginRedirect
      | Some u \<Rightarrow>
          if method \<noteq> POST then Inl MethodNotAllowed
          else
            (case get_object_or_404 (\<lambda>a. slug a = article_slug \<and> status a = Published) articles of
               Inl e \<Rightarrow> Inl e
             | Inr article \<Rightarrow>
                 if content_is_valid posted
                 then Comment_save
                        ((CommentForm_save (strip posted) (Some u))\<lparr>comment_article := Some (pk article)\<rparr>)
                        rows
                 else Inr rows))"

text \<open>\<open>ReplyForm.save(commit=True)\<close>: author and parent are set, the article is not.\<close>

definition ReplyForm_save ::
  "string \<Rightarrow> user option \<Rightarrow> comment option \<Rightarrow> comment list \<Rightarrow> error + comment list"
where
  "ReplyForm_save cleaned_content form_user form_parent rows =
     (let reply0 = Comment_init cleaned_content;
          reply1 = (case form_user of
                      None \<Rightarrow> reply0
                    | Some u \<Rightarrow> reply0\<lparr>comment_author := Some (user_pk u)\<rparr>);
          reply2 = (case form_parent of
                      None \<Rightarrow> reply1
                    | Some p \<Rightarrow> reply1\<lparr>parent := comment_pk p\<rparr>)
      in Comment_save reply2 rows)"

text \<open>\<open>add_reply\<close>, under \<open>login_required\<close> and \<open>require_POST\<close>.\<close>

definition add_reply ::
  "user option \<Rightarrow> http_method \<Rightarrow> nat \<Rightarrow> string \<Rightarrow> comment list \<Rightarrow> error + comment list"
where
  "add_reply request_user method comment_id posted rows =
     (case request_user of
        None \<Rightarrow> Inl LoginRedirect
      | Some u \<Rightarrow>
          if method \<noteq> POST then Inl MethodNotAllowed
          else
            (case get_object_or_404 (\<lambda>c. comment_pk c = Some comment_id) rows of
               Inl e \<Rightarrow> Inl e
             | Inr parent_comment \<Rightarrow>
                 if content_is_valid posted
                 then ReplyForm_save (strip posted) (Some u) (Some parent_comment) rows
                 else Inr rows))"

text \<open>\<open>admin_comment_reject\<close>, under \<open>staff_member_required\<close>; any HTTP method triggers it.\<close>

definition admin_comment_reject ::
  "user option \<Rightarrow> timestamp \<Rightarrow> nat \<Rightarrow> comment list \<Rightarrow> error + comment list"
where
  "admin_comment_reject request_user now comment_id rows =
     (case request_user of
        None \<Rightarrow> Inl LoginRedirect
      | Some u \<Rightarrow>
          if \<not> staff_member (Some u) then Inl LoginRedirect
          else
            (case get_object_or_404 (\<lambda>c. comment_pk c = Some comment_id) rows of
               Inl e \<Rightarrow> Inl e
             | Inr comment0 \<Rightarrow>
                 Comment_save
                   (comment0\<lparr>is_approved := False, is_moderated := True,
                             moderated_by := Some (user_pk u), moderated_at := Some now\<rparr>)
                   rows))"

section \<open>Newsletter (news/models.py, news/forms.py, news/views.py)\<close>

record newsletter =
  newsletter_pk :: nat
  email :: string
  newsletter_is_active :: bool
  frequency :: frequency_choice
  newsletter_categories :: "nat set"

text \<open>
  The posted form: the address (stripped by the field), the chosen frequency (\<open>None\<close> when
  it is missing or not among the choices) and the primary keys of the ticked categories.
\<close>

record newsletter_post =
  post_email :: string
  post_frequency :: "frequency_choice option"
  post_categories :: "nat list"

text \<open>
  \<open>NewsletterForm\<close> is a \<open>ModelForm\<close> over \<open>Newsletter\<close> with the fields email,
  frequency and categories. \<open>is_valid()\<close> cleans every field (\<open>email_validator\<close> stands
  for Django's \<open>EmailField\<close> check; the categories must come from the active ones, the
  queryset that \<open>__init__\<close> sets) and then, as every \<open>ModelForm\<close> does, runs
  \<open>validate_unique\<close> on the new, unsaved instance: \<open>email\<close> is declared \<open>unique=True\<close>,
  so an address that a stored row already holds is a validation error. The result is the
  cleaned data, or \<open>None\<close> for an invalid form.
\<close>

definition NewsletterForm_clean ::
  "(string \<Rightarrow> bool) \<Rightarrow> category list \<Rightarrow> newsletter_post \<Rightarrow> newsletter list
     \<Rightarrow> (string \<times> frequency_choice \<times> nat list) option"
where
  "NewsletterForm_clean email_validator categories post table =
     (case post_frequency post of
        None \<Rightarrow> None
      | Some f \<Rightarrow>
          if email_validator (post_email post)
             \<and> list_all (\<lambda>k. k \<in> set (map category_pk (filter category_is_active categories)))
                  (post_categories post)
             \<and> \<not> list_ex (\<lambda>r. email r = post_email post) table
          then Some (post_email post, f, post_categories post)
          else None)"

definition newsletter_next_pk :: "newsletter list \<Rightarrow> nat" where
  "newsletter_next_pk table = Suc (foldr max (map newsletter_pk table) 0)"

text \<open>
  \<open>Newsletter.objects.get_or_create(email=..., defaults={'frequency': ...})\<close>: the row
  found or the row made (with \<open>is_active\<close> at its default), whether it was created, and
  the table.
\<close>

definition get_or_create ::
  "string \<Rightarrow> frequency_choice \<Rightarrow> newsletter list \<Rightarrow> error + (newsletter \<times> bool \<times> newsletter list)"
where
  "get_or_create email' frequency' table =
     (case filter (\<lambda>r. email r = email') table of
        [] \<Rightarrow>
          (let obj = \<lparr>newsletter_pk = newsletter_next_pk table, email = email',
                      newsletter_is_active = True, frequency = frequency',
                      newsletter_categories = {}\<rparr>
           in Inr (obj, True, table @ [obj]))
      | [r] \<Rightarrow> Inr (r, False, table)
      | _ \<Rightarrow> Inl MultipleObjectsReturned)"

text \<open>
  The body of \<open>newsletter_subscribe\<close> after \<open>form.is_valid()\<close>, on the cleaned data.
\<close>

definition subscribe_cleaned ::
  "string \<times> frequency_choice \<times> nat list \<Rightarrow> newsletter list \<Rightarrow> error + newsletter list"
where
  "subscribe_cleaned cleaned_data table =
     (case cleaned_data of (email', frequency', categories') \<Rightarrow>
        (case get_or_create email' frequency' table of
           Inl e \<Rightarrow> Inl e
         | Inr (newsletter0, created, table1) \<Rightarrow>
             (let table2 =
                    (if \<not> created
                     then update_where (\<lambda>r. newsletter_pk r = newsletter_pk newsletter0)
                            (\<lambda>_. newsletter0\<lparr>frequency := frequency',
                                               newsletter_is_active := True\<rparr>) table1
                     else table1)
              in Inr (update_where (\<lambda>r. newsletter_pk r = newsletter_pk newsletter0)
                        (\<lambda>r. r\<lparr>newsletter_categories := set categories'\<rparr>) table2))))"

text \<open>\<open>newsletter_subscribe\<close>: a GET, and a POST with an invalid form, write nothing.\<close>

definition newsletter_subscribe ::
  "(string \<Rightarrow> bool) \<Rightarrow> category list \<Rightarrow> http_method \<Rightarrow> newsletter_post \<Rightarrow> newsletter list
     \<Rightarrow> error + newsletter list"
where
  "newsletter_subscribe email_validator categories method post table =
     (if method = POST then
        (case NewsletterForm_clean email_validator categories post table of
           None \<Rightarrow> Inr table
         | Some cleaned_data \<Rightarrow> subscribe_cleaned cleaned_data table)
      else Inr table)"

section \<open>Sample rows\<close>

text \<open>Concrete rows and requests, on which the results below are run.\<close>

definition technology :: category where
  "technology =
     \<lparr>category_pk = 1, category_name = ''Technology'', category_slug = ''technology'',
      category_is_active = True\<rparr>"

definition draft_article :: article where
  "draft_article =
     \<lparr>pk = 1, title = ''A Sufficiently Long Title Here'',
      slug = ''a-sufficiently-long-title-here'',
      content = ''Formal methods make newsroom software easier to trust and to maintain.'',
      excerpt = [], author = 7, category = technology, tags = [], status = Draft,
      featured = Normal, is_published = False, created_at = 100, published_at = None,
      meta_description = [], view_count = 0, share_count = 0, reading_time = 0\<rparr>"

definition published_article :: article where
  "published_article =
     draft_article\<lparr>pk := 2, title := ''Second Article Of The Day'',
                    slug := ''second-article-of-the-day'',
                    excerpt := ''Formal methods make newsroom software easier to trust and to maintain.'',
                    meta_description := ''Formal methods make newsroom software easier to trust and to maintain.'',
                    reading_time := 1,
                    status := Published, is_published := True, created_at := 200,
                    published_at := Some 500\<rparr>"

definition later_article :: article where
  "later_article =
     published_article\<lparr>pk := 3, title := ''Third Article Of The Day'',
                        slug := ''third-article-of-the-day'', created_at := 300\<rparr>"

definition unpublished_article :: article where
  "unpublished_article =
     published_article\<lparr>pk := 4, title := ''Fourth Article Of The Day'',
                        slug := ''fourth-article-of-the-day'', is_published := False\<rparr>"

definition no_filters :: list_request where
  "no_filters = \<lparr>q = None, category_param = None, tag_param = None, date_from = None, date_to = None\<rparr>"

definition reader :: user where
  "reader = \<lparr>user_pk = 7, user_is_active = True, user_is_staff = False\<rparr>"

definition moderator :: user where
  "moderator = \<lparr>user_pk = 9, user_is_active = True, user_is_staff = True\<rparr>"

definition stored_comment :: comment where
  "stored_comment =
     (Comment_init ''This is a great article!'')
       \<lparr>comment_pk := Some 1, comment_article := Some 2, comment_author := Some 7\<rparr>"

definition inactive_subscriber :: newsletter where
  "inactive_subscriber =
     \<lparr>newsletter_pk = 1, email = ''reader@example.com'', newsletter_is_active = False,
      frequency = Weekly, newsletter_categories = {}\<rparr>"

definition resubscribe_post :: newsletter_post where
  "resubscribe_post =
     \<lparr>post_email = ''reader@example.com'', post_frequency = Some Daily, post_categories = [1]\<rparr>"

text \<open>
  The change form of \<open>ArticleAdmin\<close> as it is rendered for an instance: every field
  holds the instance's value.
\<close>

definition admin_form_of :: "article \<Rightarrow> admin_form" where
  "admin_form_of a =
     \<lparr>admin_title = title a, admin_slug = slug a, admin_content = content a,
      admin_excerpt = excerpt a, admin_author = author a, admin_category = category a,
      admin_tags = tags a, admin_status = status a, admin_featured = featured a,
      admin_is_published = is_published a, admin_published_at = published_at a,
      admin_meta_description = meta_description a\<rparr>"

text \<open>
  The form of \<open>ArticleForm\<close> as it is rendered for an instance: every field holds the
  instance's value.
\<close>

definition article_form_of :: "article \<Rightarrow> article_form" where
  "article_form_of a =
     \<lparr>form_title = title a, form_content = content a, form_excerpt = excerpt a,
      form_category = category a, form_tags = tags a, form_status = status a,
      form_meta_description = meta_description a\<rparr>"

section \<open>Notions used in the proofs\<close>

text \<open>
  \<open>starts_after p s\<close> counts the word starts of \<open>s\<close> when \<open>p\<close> tells whether the character
  in front of \<open>s\<close> was whitespace.
\<close>

definition starts_after :: "bool \<Rightarrow> string \<Rightarrow> nat" where
  "starts_after p s =
     length (filter (\<lambda>i. \<not> isspace (s ! i) \<and> (if i = 0 then p else isspace (s ! (i - 1))))
               [0..<length s])"

text \<open>
  \<open>hidden p t table\<close>: every row with primary key \<open>p\<close> is unpublished and carries the
  publication time \<open>t\<close>.
\<close>

definition hidden :: "nat \<Rightarrow> timestamp \<Rightarrow> article list \<Rightarrow> bool" where
  "hidden p t table =
     (\<forall>r \<in> set table. pk r = p \<longrightarrow> \<not> is_published r \<and> published_at r = Some t)"

text \<open>
  A run of operations on the unpublished sample: two edits that move the status away
  from \<open>published\<close> and back, a page view, a share, a bulk unpublish and a bulk publish
  of another article.
\<close>

definition sample_ops :: "article_op list" where
  "sample_ops =
     [Edit 4 ((article_form_of unpublished_article)\<lparr>form_status := Draft\<rparr>) 910,
      Edit 4 ((article_form_of unpublished_article)\<lparr>form_status := Published\<rparr>) 920,
      View ''fourth-article-of-the-day'' 930,
      Share ''fourth-article-of-the-day'' 940,
      Bulk (Some moderator) POST ''unpublish_articles'' [4] 950,
      Bulk (Some moderator) POST ''publish_articles'' [2] 960]"

section \<open>What Article.save derives\<close>

lemma save_keeps [simp]:
  "pk (save slugify now a) = pk a"
  "status (save slugify now a) = status a"
  "content (save slugify now a) = content a"
  "title (save slugify now a) = title a"
  "created_at (save slugify now a) = created_at a"
  "view_count (save slugify now a) = view_count a"
  "share_count (save slugify now a) = share_count a"
  by (simp_all add: save_def Let_def)

lemma save_published_at:
  "published_at (save slugify now a) =
     (case published_at a of Some t \<Rightarrow> Some t
      | None \<Rightarrow> if status a = Published then Some now else None)"
  by (simp add: save_def Let_def split: option.splits)

lemma save_is_published:
  "is_published (save slugify now a) =
     (if status a = Published \<and> published_at a = None then True else is_published a)"
  by (auto simp: save_def Let_def)

lemma save_excerpt:
  "excerpt (save slugify now a) =
     (if excerpt a = [] \<and> content a \<noteq> []
      then (if 200 < length (content a) then take 200 (content a) @ ''...'' else content a)
      else excerpt a)"
  by (simp add: save_def Let_def)

lemma save_reading_time:
  "reading_time (save slugify now a) = max 1 (length (py_split (content a)) div 200)"
  by (simp add: save_def Let_def)

subsection \<open>Word count\<close>

lemma starts_after_Nil: "starts_after p [] = 0"
  by (simp add: starts_after_def)

lemma starts_after_Cons:
  "starts_after p (c # cs) = (if \<not> isspace c \<and> p then 1 else 0) + starts_after (isspace c) cs"
proof -
  have upt: "[0..<length (c # cs)] = 0 # map Suc [0..<length cs]"
    by (simp add: upt_conv_Cons map_Suc_upt del: upt_Suc)
  have shifted:
    "filter (\<lambda>i. \<not> isspace ((c # cs) ! i) \<and> (if i = 0 then p else isspace ((c # cs) ! (i - 1))))
       (map Suc [0..<length cs])
     = map Suc (filter (\<lambda>i. \<not> isspace (cs ! i) \<and> (if i = 0 then isspace c else isspace (cs ! (i - 1))))
       [0..<length cs])"
    unfolding filter_map o_def
    by (rule arg_cong[where f = "map Suc"], rule filter_cong) (auto simp: nth_Cons')
  show ?thesis
    unfolding starts_after_def upt using shifted by simp
qed

lemma length_split_from:
  "length (split_from cur s) = (if cur = [] then 0 else 1) + starts_after (cur = []) s"
  by (induction s arbitrary: cur) (simp_all add: starts_after_Nil starts_after_Cons)

lemma wordCount_starts: "wordCount s = starts_after True s"
  unfolding wordCount_def starts_after_def
  by (rule arg_cong[where f = length], rule filter_cong) auto

lemma length_py_split: "length (py_split s) = wordCount s"
  by (simp add: py_split_def length_split_from wordCount_starts)

text \<open>
  Claim C6. After every save, \<open>reading_time\<close> is \<open>max(1, wordCount(content) // 200)\<close> of
  the content the article then holds, whatever the value was before; the words that
  \<open>content.split()\<close> returns are counted by \<open>wordCount\<close>, the number of positions at which
  a whitespace-separated word starts.
\<close>

theorem reading_time_recomputed:
  "reading_time (save slugify now a)
     = max 1 (wordCount (content (save slugify now a)) div 200)
   \<and> content (save slugify now a) = content a
   \<and> length (py_split (content a)) = wordCount (content a)"
  by (simp add: save_reading_time length_py_split)

text \<open>The sample draft has eleven words, so a save sets its reading time to one minute.\<close>

theorem reading_time_recomputed_witness:
  "wordCount (content draft_article) = 11 \<and> reading_time draft_article = 0
   \<and> reading_time (save id 0 draft_article) = 1"
proof -
  have "length (py_split (content draft_article)) = 11"
    by (simp add: draft_article_def py_split_def isspace_def)
  with reading_time_recomputed[of id 0 draft_article]
  have words: "wordCount (content draft_article) = 11"
    by simp
  have before: "reading_time draft_article = 0"
    by (simp add: draft_article_def)
  from reading_time_recomputed[of id 0 draft_article] words
  have "reading_time (save id 0 draft_article) = max 1 (11 div 200)"
    by simp
  with words before show ?thesis by simp
qed

text \<open>
  Claim C9, as stated, fails: the sample draft has a blank excerpt and 70 characters of
  content, and the save copies the content into the excerpt without an ellipsis.
\<close>

theorem excerpt_ellipsis_counterexample:
  "excerpt draft_article = [] \<and> content draft_article \<noteq> []
   \<and> excerpt (save id 0 draft_article) \<noteq> take 200 (content draft_article) @ ''...''"
  by (simp add: save_excerpt draft_article_def)

text \<open>
  Claim C9, amended. For every article saved with a blank excerpt and non-empty content,
  the save fills the excerpt with the first 200 characters of the content followed by
  \<open>'...'\<close> when the content is longer than 200 characters, and with the content itself,
  without ellipsis, when it has at most 200 characters.
\<close>

theorem excerpt_auto_filled:
  "excerpt a = [] \<and> content a \<noteq> [] \<longrightarrow>
     excerpt (save slugify now a)
       = (if 200 < length (content a) then take 200 (content a) @ ''...'' else content a)"
  by (simp add: save_excerpt)

theorem excerpt_auto_filled_witness:
  "excerpt (save id 0 draft_article) = content draft_article
   \<and> excerpt (save id 0 (draft_article\<lparr>content := replicate 201 CHR ''a''\<rparr>))
       = replicate 200 CHR ''a'' @ ''...''"
proof -
  have short: "excerpt draft_article = [] \<and> content draft_article \<noteq> []"
    by (simp add: draft_article_def)
  have len: "\<not> 200 < length (content draft_article)"
    by (simp add: draft_article_def)
  from excerpt_auto_filled[of draft_article id 0] short len
  have one: "excerpt (save id 0 draft_article) = content draft_article"
    by simp
  have long: "excerpt (draft_article\<lparr>content := replicate 201 CHR ''a''\<rparr>) = []
      \<and> content (draft_article\<lparr>content := replicate 201 CHR ''a''\<rparr>) \<noteq> []"
    by (simp add: draft_article_def)
  from excerpt_auto_filled[of "draft_article\<lparr>content := replicate 201 CHR ''a''\<rparr>" id 0] long
  have two: "excerpt (save id 0 (draft_article\<lparr>content := replicate 201 CHR ''a''\<rparr>))
      = replicate 200 CHR ''a'' @ ''...''"
    by simp
  from one two show ?thesis by simp
qed

section \<open>The publication timestamp\<close>

lemma ArticleForm_save_published_at:
  "published_at (ArticleForm_save slugify now u form a) =
     (case published_at a of Some t \<Rightarrow> Some t
      | None \<Rightarrow> if form_status form = Published then Some now else None)"
  by (simp add: ArticleForm_save_def Let_def save_published_at split: option.splits)

lemma ArticleForm_save_is_published:
  "is_published (ArticleForm_save slugify now u form a) =
     (if form_status form = Published \<and> published_at a = None then True else is_published a)"
  by (auto simp: ArticleForm_save_def Let_def save_is_published save_published_at split: option.splits)

lemma ArticleForm_save_pk [simp]: "pk (ArticleForm_save slugify now u form a) = pk a"
  by (simp add: ArticleForm_save_def Let_def split: option.splits)





section \<open>Bulk publication\<close>

text \<open>
  Claim C3. For every list of target keys, \<open>publish_articles\<close> (posted by a staff member)
  keeps the table's rows in place, turns every target row into the same row with
  \<open>status = published\<close>, \<open>is_published = True\<close> and \<open>published_at\<close> the time of the call,
  whatever \<open>published_at\<close> held before, and leaves every other row as it was.
\<close>

theorem bulk_publish_overwrites:
  "staff_member request_user \<longrightarrow>
     length (admin_bulk_actions request_user POST ''publish_articles'' selected_items now table)
       = length table
     \<and> (\<forall>i < length table.
          (pk (table ! i) \<in> set selected_items \<longrightarrow>
             admin_bulk_actions request_user POST ''publish_articles'' selected_items now table ! i
               = (table ! i)\<lparr>status := Published, is_published := True, published_at := Some now\<rparr>)
          \<and> (pk (table ! i) \<notin> set selected_items \<longrightarrow>
             admin_bulk_actions request_user POST ''publish_articles'' selected_items now table ! i
               = table ! i))"
  by (simp add: admin_bulk_actions_def update_where_def)


text \<open>
  The draft without timestamp and the article published at 500 both carry the call time
  900 afterwards.
\<close>

theorem bulk_publish_overwrites_witness:
  "admin_bulk_actions (Some moderator) POST ''publish_articles'' [1, 2] 900
      [draft_article, published_article]
    = [draft_article\<lparr>status := Published, is_published := True, published_at := Some 900\<rparr>,
       published_article\<lparr>status := Published, is_published := True, published_at := Some 900\<rparr>]
   \<and> published_at draft_article = None \<and> published_at published_article = Some 500"
proof -
  let ?res = "admin_bulk_actions (Some moderator) POST ''publish_articles'' [1, 2] 900
      [draft_article, published_article]"
  have staff: "staff_member (Some moderator)"
    by (simp add: staff_member_def moderator_def)
  have keys: "pk draft_article = 1" "pk published_article = 2"
    by (simp_all add: published_article_def draft_article_def)
  from bulk_publish_overwrites[of "Some moderator" "[1, 2]" 900 "[draft_article, published_article]"] staff
  have len: "length ?res = 2"
    and rows: "\<forall>i < 2. (pk ([draft_article, published_article] ! i) \<in> set [1, 2] \<longrightarrow>
             ?res ! i = ([draft_article, published_article] ! i)
                \<lparr>status := Published, is_published := True, published_at := Some 900\<rparr>)"
    by simp_all
  from rows keys have r0: "?res ! 0 = draft_article\<lparr>status := Published, is_published := True, published_at := Some 900\<rparr>"
    by force
  from rows keys have r1: "?res ! 1 = published_article\<lparr>status := Published, is_published := True, published_at := Some 900\<rparr>"
    by force
  from len r0 r1 have "?res = [draft_article\<lparr>status := Published, is_published := True, published_at := Some 900\<rparr>,
       published_article\<lparr>status := Published, is_published := True, published_at := Some 900\<rparr>]"
    by (auto simp: list_eq_iff_nth_eq less_Suc_eq numeral_2_eq_2)
  moreover have "published_at draft_article = None \<and> published_at published_article = Some 500"
    by (simp add: published_article_def draft_article_def)
  ultimately show ?thesis by simp
qed

section \<open>Comment defaults and rejection\<close>

lemma get_object_or_404_Inr:
  assumes "get_object_or_404 lookup rows = Inr x"
  shows "x \<in> set rows \<and> lookup x \<and> filter lookup rows = [x]"
proof -
  from assms have one: "filter lookup rows = [x]"
    by (auto simp: get_object_or_404_def split: list.splits)
  then have "x \<in> set (filter lookup rows)" by simp
  then have "x \<in> set rows \<and> lookup x" by simp
  with one show ?thesis by simp
qed

lemma Comment_save_insert:
  "comment_pk obj = None \<Longrightarrow> comment_article obj \<noteq> None \<Longrightarrow> comment_author obj \<noteq> None \<Longrightarrow>
     Comment_save obj rows = Inr (rows @ [obj\<lparr>comment_pk := Some (next_pk rows)\<rparr>])"
  by (simp add: Comment_save_def)

lemma add_comment_result:
  assumes "add_comment request_user method article_slug posted articles rows = Inr rows'"
    and "rows' \<noteq> rows"
  shows "\<exists>new. rows' = rows @ [new] \<and> is_approved new \<and> \<not> is_moderated new
           \<and> comment_content new = strip posted"
proof -
  from assms obtain u and article :: article where
    saved: "Comment_save
              ((CommentForm_save (strip posted) (Some u))\<lparr>comment_article := Some (pk article)\<rparr>) rows
            = Inr rows'"
    by (auto simp: add_comment_def split: option.splits if_splits sum.splits)
  let ?obj = "(CommentForm_save (strip posted) (Some u))\<lparr>comment_article := Some (pk article)\<rparr>"
  note saved
  moreover have "Comment_save ?obj rows = Inr (rows @ [?obj\<lparr>comment_pk := Some (next_pk rows)\<rparr>])"
    by (rule Comment_save_insert) (simp_all add: CommentForm_save_def Comment_init_def)
  ultimately have "rows' = rows @ [?obj\<lparr>comment_pk := Some (next_pk rows)\<rparr>]"
    by simp
  then show ?thesis
    by (simp add: CommentForm_save_def Comment_init_def)
qed

lemma admin_comment_reject_result:
  assumes "staff_member (Some m)"
    and "filter (\<lambda>c. comment_pk c = Some comment_id) rows = [c]"
    and "comment_article c \<noteq> None" and "comment_author c \<noteq> None"
  shows "admin_comment_reject (Some m) now comment_id rows
    = Inr (update_where (\<lambda>r. comment_pk r = Some comment_id)
        (\<lambda>_. c\<lparr>is_approved := False, is_moderated := True,
                moderated_by := Some (user_pk m), moderated_at := Some now\<rparr>) rows)"
proof -
  from assms(2) have "c \<in> set (filter (\<lambda>c. comment_pk c = Some comment_id) rows)" by simp
  then have c: "c \<in> set rows" "comment_pk c = Some comment_id" by simp_all
  then have mem: "Some comment_id \<in> comment_pk ` set rows" by force
  show ?thesis
    using assms c mem
    by (simp add: admin_comment_reject_def get_object_or_404_def Comment_save_def)
qed

text \<open>
  Claim C5. A comment built without an approval value is approved and unmoderated, and so
  is the row that \<open>add_comment\<close> stores. Rejecting a stored comment as staff member \<open>m\<close>
  writes, in one save, \<open>is_approved = False\<close>, \<open>is_moderated = True\<close>, \<open>moderated_by = m\<close>
  and \<open>moderated_at\<close> the time of the call on the row with that key, and nothing else.
\<close>

theorem comment_defaults_and_reject:
  "is_approved (Comment_init content') \<and> \<not> is_moderated (Comment_init content')
   \<and> (add_comment request_user http_verb article_slug posted articles rows = Inr rows' \<and> rows' \<noteq> rows
        \<longrightarrow> (\<exists>new. rows' = rows @ [new] \<and> is_approved new \<and> \<not> is_moderated new
               \<and> comment_content new = strip posted))
   \<and> (staff_member (Some m) \<and> filter (\<lambda>c. comment_pk c = Some comment_id) rows = [c]
        \<and> comment_article c \<noteq> None \<and> comment_author c \<noteq> None
        \<longrightarrow> admin_comment_reject (Some m) now comment_id rows
              = Inr (update_where (\<lambda>r. comment_pk r = Some comment_id)
                  (\<lambda>_. c\<lparr>is_approved := False, is_moderated := True,
                          moderated_by := Some (user_pk m), moderated_at := Some now\<rparr>) rows))"
  using add_comment_result[of request_user http_verb article_slug posted articles rows rows']
    admin_comment_reject_result[of m comment_id rows c now]
  by (simp add: Comment_init_def)

text \<open>
  The reader's comment on the published sample is stored approved and unmoderated; the
  moderator's rejection of the stored comment at 900 sets the four moderation fields.
\<close>

theorem comment_defaults_and_reject_witness:
  "is_approved (Comment_init ''I found it very informative.'')
   \<and> \<not> is_moderated (Comment_init ''I found it very informative.'')
   \<and> (\<exists>new. add_comment (Some reader) POST ''second-article-of-the-day''
               ''I found it very informative.'' [draft_article, published_article] [stored_comment]
             = Inr ([stored_comment] @ [new])
           \<and> is_approved new \<and> \<not> is_moderated new)
   \<and> admin_comment_reject (Some moderator) 900 1 [stored_comment]
       = Inr [stored_comment\<lparr>is_approved := False, is_moderated := True,
                              moderated_by := Some 9, moderated_at := Some 900\<rparr>]"
proof -
  let ?new = "\<lparr>comment_pk = Some 2, comment_article = Some 2, comment_author = Some 7,
      parent = None, comment_content = ''I found it very informative.'', is_approved = True,
      is_highlighted = False, is_moderated = False, moderated_by = None, moderated_at = None\<rparr>"
  have valid: "content_is_valid ''I found it very informative.''"
    by (simp add: content_is_valid_def strip_def isspace_def)
  have stripped: "strip ''I found it very informative.'' = ''I found it very informative.''"
    by (simp add: strip_def isspace_def)
  have run: "add_comment (Some reader) POST ''second-article-of-the-day''
        ''I found it very informative.'' [draft_article, published_article] [stored_comment]
      = Inr [stored_comment, ?new]"
    by (simp add: add_comment_def get_object_or_404_def valid stripped Comment_save_def
        CommentForm_save_def Comment_init_def next_pk_def stored_comment_def reader_def
        published_article_def draft_article_def)
  have staff: "staff_member (Some moderator)"
    by (simp add: staff_member_def moderator_def)
  have found: "filter (\<lambda>c. comment_pk c = Some 1) [stored_comment] = [stored_comment]"
    "comment_article stored_comment \<noteq> None" "comment_author stored_comment \<noteq> None"
    by (simp_all add: stored_comment_def)
  note inst = comment_defaults_and_reject[where content' = "''I found it very informative.''"
      and request_user = "Some reader" and http_verb = POST
      and article_slug = "''second-article-of-the-day''"
      and posted = "''I found it very informative.''"
      and articles = "[draft_article, published_article]" and rows = "[stored_comment]"
      and rows' = "[stored_comment, ?new]" and m = moderator and comment_id = 1
      and c = stored_comment and now = 900]
  from inst have defaults: "is_approved (Comment_init ''I found it very informative.'')
      \<and> \<not> is_moderated (Comment_init ''I found it very informative.'')"
    by blast
  from inst run have "\<exists>new. [stored_comment, ?new] = [stored_comment] @ [new]
      \<and> is_approved new \<and> \<not> is_moderated new"
    by auto
  with run have stored: "\<exists>new. add_comment (Some reader) POST ''second-article-of-the-day''
               ''I found it very informative.'' [draft_article, published_article] [stored_comment]
             = Inr ([stored_comment] @ [new])
           \<and> is_approved new \<and> \<not> is_moderated new"
    by auto
  from inst staff found
  have "admin_comment_reject (Some moderator) 900 1 [stored_comment]
      = Inr (update_where (\<lambda>r. comment_pk r = Some 1)
          (\<lambda>_. stored_comment\<lparr>is_approved := False, is_moderated := True,
                  moderated_by := Some (user_pk moderator), moderated_at := Some 900\<rparr>)
          [stored_comment])"
    by blast
  then have rejected: "admin_comment_reject (Some moderator) 900 1 [stored_comment]
       = Inr [stored_comment\<lparr>is_approved := False, is_moderated := True,
                              moderated_by := Some 9, moderated_at := Some 900\<rparr>]"
    by (simp add: update_where_def stored_comment_def moderator_def)
  from defaults stored rejected show ?thesis by blast
qed

section \<open>Public listings and visibility\<close>

lemma set_insert_by: "set (insert_by before x xs) = insert x (set xs)"
  by (induction xs) auto

lemma set_sort_by: "set (sort_by before xs) = set xs"
  by (induction xs) (simp_all add: sort_by_def set_insert_by)

lemma sorted_insert_by:
  assumes total: "\<And>x y. before x y \<or> before y x"
    and trans: "\<And>x y z. before x y \<Longrightarrow> before y z \<Longrightarrow> before x z"
  shows "sorted_wrt before xs \<Longrightarrow> sorted_wrt before (insert_by before x xs)"
proof (induction xs)
  case Nil
  then show ?case by simp
next
  case (Cons y ys)
  show ?case
  proof (cases "before x y")
    case True
    with Cons.prems trans show ?thesis by auto
  next
    case False
    with total have "before y x" by blast
    with Cons False show ?thesis by (auto simp: set_insert_by)
  qed
qed

lemma sorted_sort_by:
  assumes total: "\<And>x y. before x y \<or> before y x"
    and trans: "\<And>x y z. before x y \<Longrightarrow> before y z \<Longrightarrow> before x z"
  shows "sorted_wrt before (sort_by before xs)"
proof (induction xs)
  case Nil
  then show ?case by (simp add: sort_by_def)
next
  case (Cons x xs)
  have "sort_by before (x # xs) = insert_by before x (sort_by before xs)"
    by (simp add: sort_by_def)
  with Cons sorted_insert_by[of before, OF total trans] show ?case by simp
qed

lemma desc_nullable_total: "desc_nullable x y \<or> desc_nullable y x"
  by (cases x; cases y) auto

lemma desc_nullable_trans: "desc_nullable x y \<Longrightarrow> desc_nullable y z \<Longrightarrow> desc_nullable x z"
  by (cases x; cases y; cases z) auto

lemma order_by_published_at_desc_sorted:
  "sorted_wrt (\<lambda>a b. desc_nullable (published_at a) (published_at b)) (order_by_published_at_desc rows)"
  unfolding order_by_published_at_desc_def
proof (rule sorted_sort_by)
  show "desc_nullable (published_at x) (published_at y) \<or> desc_nullable (published_at y) (published_at x)"
    for x y :: article
    by (rule desc_nullable_total)
  show "desc_nullable (published_at x) (published_at y) \<Longrightarrow>
        desc_nullable (published_at y) (published_at z) \<Longrightarrow>
        desc_nullable (published_at x) (published_at z)" for x y z :: article
    by (rule desc_nullable_trans)
qed

lemma date_bound_subset:
  "date_bound parse_date param cmp rows = Inr rows' \<Longrightarrow> set rows' \<subseteq> set rows"
  by (auto simp: date_bound_def split: option.splits)

lemma search_rows_subset: "set (search_rows s a) \<subseteq> {a}"
  by (auto simp: search_rows_def)

lemma tag_rows_subset: "set (tag_rows s a) \<subseteq> {a}"
  by (auto simp: tag_rows_def)

lemma ArticleListView_shape:
  assumes "ArticleListView_get_queryset parse_date request table = Inr rows"
  obtains matched where "rows = order_by_published_at_desc matched"
    and "set matched \<subseteq> set (filter visible table)"
proof -
  define q0 where "q0 = filter visible table"
  define q1 where "q1 = (case given (q request) of None \<Rightarrow> q0
      | Some search_query \<Rightarrow> concat (map (search_rows search_query) q0))"
  define q2 where "q2 = (case given (category_param request) of None \<Rightarrow> q1
      | Some category_slug' \<Rightarrow> filter (\<lambda>a. category_slug (category a) = category_slug') q1)"
  define q3 where "q3 = (case given (tag_param request) of None \<Rightarrow> q2
      | Some tag_slug' \<Rightarrow> concat (map (tag_rows tag_slug') q2))"
  have s1: "set q1 \<subseteq> set q0"
    using search_rows_subset by (fastforce simp: q1_def split: option.splits)
  have s2: "set q2 \<subseteq> set q1"
    by (auto simp: q2_def split: option.splits)
  have s3: "set q3 \<subseteq> set q2"
    using tag_rows_subset by (fastforce simp: q3_def split: option.splits)
  from assms obtain q4 q5 where
    d4: "date_bound parse_date (date_from request) (\<lambda>d bound. bound \<le> d) q3 = Inr q4" and
    d5: "date_bound parse_date (date_to request) (\<lambda>d bound. d \<le> bound) q4 = Inr q5" and
    r: "rows = order_by_published_at_desc (if given (q request) = None then q5 else remdups q5)"
    unfolding ArticleListView_get_queryset_def Let_def q0_def[symmetric] q1_def[symmetric]
      q2_def[symmetric] q3_def[symmetric]
    by (auto split: sum.splits)
  have "set q5 \<subseteq> set q0"
    using date_bound_subset[OF d4] date_bound_subset[OF d5] s1 s2 s3 by blast
  then have "set (if given (q request) = None then q5 else remdups q5) \<subseteq> set q0"
    by simp
  with r show ?thesis
    using that by (simp add: q0_def)
qed

lemma ArticleListView_visible:
  assumes "ArticleListView_get_queryset parse_date request table = Inr rows"
  shows "\<forall>a \<in> set rows. visible a \<and> a \<in> set table"
proof -
  from assms obtain matched where "rows = order_by_published_at_desc matched"
    and "set matched \<subseteq> set (filter visible table)"
    by (rule ArticleListView_shape)
  then show ?thesis
    by (auto simp: order_by_published_at_desc_def set_sort_by)
qed

lemma ArticleListView_newest_first:
  assumes "ArticleListView_get_queryset parse_date request table = Inr rows"
  shows "sorted_wrt (\<lambda>a b. desc_nullable (published_at a) (published_at b)) rows"
proof -
  from assms obtain matched where "rows = order_by_published_at_desc matched"
    by (rule ArticleListView_shape)
  then show ?thesis
    by (simp add: order_by_published_at_desc_sorted)
qed

lemma ArticleDetailView_visible:
  "ArticleDetailView_get_object slug' table = Inr a \<Longrightarrow> visible a \<and> a \<in> set table \<and> slug a = slug'"
  unfolding ArticleDetailView_get_object_def
  by (drule get_object_or_404_Inr) auto

lemma featured_articles_visible: "a \<in> set (featured_articles table) \<Longrightarrow> visible a \<and> a \<in> set table"
  unfolding featured_articles_def meta_ordering_def
  by (drule in_set_takeD) (auto simp: set_sort_by)

lemma trending_articles_visible: "a \<in> set (trending_articles now table) \<Longrightarrow> visible a \<and> a \<in> set table"
  unfolding trending_articles_def order_by_view_count_desc_def Let_def
  by (drule in_set_takeD) (auto simp: set_sort_by)

text \<open>
  Claim C1. The list view, the detail view, the featured and the trending query return
  visible articles only (the four lemmas above). \<open>get_related_articles\<close> does not filter
  on visibility: on the detail page of the published sample, whose category the draft
  shares, the related articles are the draft.
\<close>

theorem related_articles_leak_draft:
  "\<not> visible draft_article
   \<and> ArticleDetailView_get_object ''second-article-of-the-day'' [draft_article, published_article]
       = Inr published_article
   \<and> get_related_articles published_article 4 [draft_article, published_article] = [draft_article]"
proof -
  have keys: "pk draft_article = 1" "pk published_article = 2"
    "category draft_article = technology" "category published_article = technology"
    "tags draft_article = []" "tags published_article = []"
    "slug draft_article = ''a-sufficiently-long-title-here''"
    "slug published_article = ''second-article-of-the-day''"
    by (simp_all add: published_article_def draft_article_def)
  have vis: "\<not> visible draft_article" "visible published_article"
    by (simp_all add: visible_def published_article_def draft_article_def)
  have detail: "ArticleDetailView_get_object ''second-article-of-the-day'' [draft_article, published_article]
       = Inr published_article"
    by (simp add: ArticleDetailView_get_object_def get_object_or_404_def vis keys)
  have related: "get_related_articles published_article 4 [draft_article, published_article] = [draft_article]"
    by (simp add: get_related_articles_def left_join_tags_def meta_ordering_def sort_by_def keys)
  from vis detail related show ?thesis by simp
qed

text \<open>
  Claim C8. The list view sorts by \<open>published_at\<close>, newest first
  (\<open>ArticleListView_newest_first\<close>), but its \<open>order_by('-published_at')\<close> replaces the
  model's default ordering and with it the tie-break on \<open>created_at\<close>: two visible
  articles with the same \<open>published_at\<close> come out as the table yields them, here the one
  created earlier first.
\<close>

theorem equal_published_at_keeps_table_order:
  "ArticleListView_get_queryset Map.empty no_filters [published_article, later_article]
     = Inr [published_article, later_article]
   \<and> published_at published_article = published_at later_article
   \<and> created_at published_article < created_at later_article"
proof -
  have vis: "visible published_article" "visible later_article"
    by (simp_all add: visible_def later_article_def published_article_def draft_article_def)
  have stamps: "published_at published_article = Some 500" "published_at later_article = Some 500"
    "created_at published_article = 200" "created_at later_article = 300"
    by (simp_all add: later_article_def published_article_def draft_article_def)
  have "ArticleListView_get_queryset Map.empty no_filters [published_article, later_article]
     = Inr [published_article, later_article]"
    by (simp add: ArticleListView_get_queryset_def no_filters_def date_bound_def
        order_by_published_at_desc_def sort_by_def vis stamps)
  with stamps show ?thesis by simp
qed

section \<open>Replies\<close>

lemma add_reply_stores_nothing:
  "add_reply request_user method comment_id posted rows = Inr rows' \<Longrightarrow> rows' = rows"
  by (auto simp: add_reply_def ReplyForm_save_def Comment_save_def Comment_init_def Let_def
      split: option.splits if_splits sum.splits)

text \<open>
  Claim C4. \<open>ReplyForm.save\<close> sets author and parent and never the article, so the insert
  of a valid reply violates the NOT NULL constraint on \<open>article\<close>: the workflow stores no
  reply at all (\<open>add_reply_stores_nothing\<close>), and a valid reply to the stored sample
  comment ends in \<open>IntegrityError\<close>.
\<close>

theorem reply_save_fails:
  "content_is_valid ''I agree with this comment.''
   \<and> add_reply (Some reader) POST 1 ''I agree with this comment.'' [stored_comment]
       = Inl IntegrityError"
proof -
  have valid: "content_is_valid ''I agree with this comment.''"
    by (simp add: content_is_valid_def strip_def isspace_def)
  have "add_reply (Some reader) POST 1 ''I agree with this comment.'' [stored_comment]
       = Inl IntegrityError"
    by (simp add: add_reply_def get_object_or_404_def valid ReplyForm_save_def Comment_save_def
        Comment_init_def stored_comment_def)
  with valid show ?thesis by simp
qed

section \<open>Newsletter subscription\<close>

lemma existing_email_never_valid:
  "list_ex (\<lambda>r. email r = post_email post) table \<Longrightarrow>
     newsletter_subscribe email_validator categories method post table = Inr table"
  by (simp add: newsletter_subscribe_def NewsletterForm_clean_def split: option.splits)

lemma update_where_none:
  "\<forall>r \<in> set rows. \<not> lookup r \<Longrightarrow> update_where lookup assign rows = rows"
  by (induction rows) (simp_all add: update_where_def)

lemma subscribe_new_email:
  assumes "NewsletterForm_clean email_validator categories post table = Some (e, f, cats)"
  shows "newsletter_subscribe email_validator categories POST post table
    = Inr (table @ [\<lparr>newsletter_pk = newsletter_next_pk table, email = e,
                     newsletter_is_active = True, frequency = f,
                     newsletter_categories = set cats\<rparr>])"
proof -
  from assms have new: "filter (\<lambda>r. email r = e) table = []"
    by (auto simp: NewsletterForm_clean_def list_ex_iff filter_empty_conv split: option.splits if_splits)
  have fresh: "\<forall>r \<in> set table. newsletter_pk r \<noteq> newsletter_next_pk table"
  proof
    fix r assume "r \<in> set table"
    then have "newsletter_pk r \<le> foldr max (map newsletter_pk table) 0"
      by (induction table) auto
    then show "newsletter_pk r \<noteq> newsletter_next_pk table"
      by (simp add: newsletter_next_pk_def)
  qed
  then have keep: "update_where (\<lambda>r. newsletter_pk r = newsletter_next_pk table) g table = table" for g
    by (intro update_where_none) simp
  show ?thesis
    using assms new keep
    by (simp add: newsletter_subscribe_def subscribe_cleaned_def get_or_create_def Let_def update_where_def)
qed

lemma subscribe_cleaned_existing:
  assumes "filter (\<lambda>r. email r = e) table = [r]" and "distinct (map newsletter_pk table)"
  shows "subscribe_cleaned (e, f, cats) table
    = Inr (update_where (\<lambda>x. newsletter_pk x = newsletter_pk r)
        (\<lambda>_. r\<lparr>frequency := f, newsletter_is_active := True, newsletter_categories := set cats\<rparr>)
        table)"
  using assms
  by (simp add: subscribe_cleaned_def get_or_create_def update_where_def)

text \<open>
  Claim C7. A new address creates exactly one row (\<open>subscribe_new_email\<close>), and the body
  of the view would update and reactivate an existing row (\<open>subscribe_cleaned_existing\<close>).
  But the view reaches that body only with a valid \<open>NewsletterForm\<close>, and the form's
  uniqueness check rejects every address that is already stored
  (\<open>existing_email_never_valid\<close>): subscribing again with the address of the inactive sample
  subscriber leaves the row inactive, with its old frequency and categories.
\<close>

theorem resubscribe_changes_nothing:
  "newsletter_subscribe email_validator [technology] POST resubscribe_post [inactive_subscriber]
     = Inr [inactive_subscriber]
   \<and> \<not> newsletter_is_active inactive_subscriber \<and> frequency inactive_subscriber = Weekly
   \<and> email inactive_subscriber = post_email resubscribe_post"
  by (simp add: newsletter_subscribe_def NewsletterForm_clean_def resubscribe_post_def
      inactive_subscriber_def)

section \<open>Unpublished articles\<close>

lemma hidden_update_where:
  assumes "hidden p t table"
    and "\<And>r. r \<in> set table \<Longrightarrow> lookup r \<Longrightarrow> pk (assign r) = p \<Longrightarrow>
           \<not> is_published (assign r) \<and> published_at (assign r) = Some t"
  shows "hidden p t (update_where lookup assign table)"
  using assms by (auto simp: hidden_def update_where_def)

lemma map_pk_update_where:
  "(\<And>r. r \<in> set table \<Longrightarrow> lookup r \<Longrightarrow> pk (assign r) = pk r) \<Longrightarrow>
     map pk (update_where lookup assign table) = map pk table"
  by (induction table) (auto simp: update_where_def)

lemma admin_article_edit_hidden:
  assumes "hidden p t table"
  shows "hidden p t (admin_article_edit slugify now article_id form table)"
proof (cases "get_object_or_404 (\<lambda>a. pk a = article_id) table")
  case (Inl e)
  with assms show ?thesis by (simp add: admin_article_edit_def)
next
  case (Inr article)
  from get_object_or_404_Inr[OF Inr] have mem: "article \<in> set table" and key: "pk article = article_id"
    by simp_all
  let ?obj = "ArticleForm_save slugify now None form article"
  have in_keys: "pk ?obj \<in> set (map pk table)"
    using mem by force
  have good: "pk ?obj = p \<Longrightarrow> \<not> is_published ?obj \<and> published_at ?obj = Some t"
    using assms mem
    by (auto simp: hidden_def ArticleForm_save_published_at ArticleForm_save_is_published)
  have "hidden p t (update_where (\<lambda>r. pk r = pk ?obj) (\<lambda>_. ?obj) table)"
    using assms good by (intro hidden_update_where) auto
  with Inr in_keys show ?thesis
    by (simp add: admin_article_edit_def Model_save_def)
qed

lemma admin_article_edit_keys:
  "map pk (admin_article_edit slugify now article_id form table) = map pk table"
proof (cases "get_object_or_404 (\<lambda>a. pk a = article_id) table")
  case (Inl e)
  then show ?thesis by (simp add: admin_article_edit_def)
next
  case (Inr article)
  from get_object_or_404_Inr[OF Inr] have mem: "article \<in> set table" by simp
  let ?obj = "ArticleForm_save slugify now None form article"
  from mem have in_keys: "pk ?obj \<in> set (map pk table)"
    by force
  have "map pk (update_where (\<lambda>r. pk r = pk ?obj) (\<lambda>_. ?obj) table) = map pk table"
    by (rule map_pk_update_where) simp
  with Inr in_keys show ?thesis
    by (simp add: admin_article_edit_def Model_save_def)
qed

lemma counters_hidden:
  "hidden p t table \<Longrightarrow> hidden p t (snd (increment_view_count slugify now a table))"
  "hidden p t table \<Longrightarrow> hidden p t (snd (increment_share_count slugify now a table))"
  by (auto simp: increment_view_count_def increment_share_count_def Let_def hidden_def update_where_def)

lemma counters_keys:
  "map pk (snd (increment_view_count slugify now a table)) = map pk table"
  "map pk (snd (increment_share_count slugify now a table)) = map pk table"
  by (simp_all add: increment_view_count_def increment_share_count_def Let_def map_pk_update_where)

lemma admin_bulk_actions_hidden:
  assumes "hidden p t table"
    and "\<not> (action = ''publish_articles'' \<and> p \<in> set selected_items)"
  shows "hidden p t (admin_bulk_actions request_user method action selected_items now table)"
proof -
  have pub: "hidden p t (update_where (\<lambda>a. pk a \<in> set selected_items)
      (\<lambda>a. a\<lparr>status := Published, is_published := True, published_at := Some now\<rparr>) table)"
    if "p \<notin> set selected_items"
    using assms(1) that by (intro hidden_update_where) auto
  have unpub: "hidden p t (update_where (\<lambda>a. pk a \<in> set selected_items)
      (\<lambda>a. a\<lparr>is_published := False\<rparr>) table)"
    using assms(1) by (intro hidden_update_where) (auto simp: hidden_def)
  show ?thesis
  proof (cases "staff_member request_user \<and> method = POST")
    case False
    with assms(1) show ?thesis by (auto simp: admin_bulk_actions_def)
  next
    case gate: True
    show ?thesis
    proof (cases "action = ''publish_articles''")
      case True
      with assms(2) have "p \<notin> set selected_items" by simp
      from pub[OF this] gate True show ?thesis by (simp add: admin_bulk_actions_def)
    next
      case False
      with gate unpub assms(1) show ?thesis by (simp add: admin_bulk_actions_def)
    qed
  qed
qed

lemma apply_op_hidden:
  assumes "hidden p t table" and "\<not> publishes p op"
  shows "hidden p t (apply_op slugify op table)"
proof (cases op)
  case (Edit article_id form now)
  with assms show ?thesis by (simp add: admin_article_edit_hidden)
next
  case (View slug' now)
  with assms show ?thesis
    by (simp add: ArticleDetailView_get_def counters_hidden split: sum.splits)
next
  case (Share slug' now)
  with assms show ?thesis
    by (simp add: increment_share_count_view_def counters_hidden split: sum.splits)
next
  case (Bulk request_user http_verb action selected_items now)
  with assms show ?thesis by (simp add: admin_bulk_actions_hidden)
qed


lemma apply_op_keys: "map pk (apply_op slugify op table) = map pk table"
proof (cases op)
  case (Edit article_id form now)
  then show ?thesis by (simp add: admin_article_edit_keys)
next
  case (View slug' now)
  then show ?thesis
    by (simp add: ArticleDetailView_get_def counters_keys split: sum.splits)
next
  case (Share slug' now)
  then show ?thesis
    by (simp add: increment_share_count_view_def counters_keys split: sum.splits)
next
  case (Bulk request_user http_verb action selected_items now)
  then show ?thesis
    by (simp add: admin_bulk_actions_def map_pk_update_where)
qed

lemma run_ops_hidden:
  "hidden p t table \<Longrightarrow> \<forall>op \<in> set ops. \<not> publishes p op \<Longrightarrow> hidden p t (run_ops slugify ops table)"
  by (induction ops arbitrary: table) (simp_all add: apply_op_hidden)

lemma run_ops_keys: "map pk (run_ops slugify ops table) = map pk table"
  by (induction ops arbitrary: table) (simp_all add: apply_op_keys)

lemma bulk_publish_visible:
  assumes "staff_member request_user" and "p \<in> set selected_items"
    and "r \<in> set (admin_bulk_actions request_user POST ''publish_articles'' selected_items now table)"
    and "pk r = p"
  shows "visible r \<and> published_at r = Some now"
  using assms by (auto simp: admin_bulk_actions_def update_where_def visible_def split: if_splits)

text \<open>
  Claim C10, as stated, fails: the change form of \<open>ArticleAdmin\<close> exposes \<open>is_published\<close>,
  and saving the unpublished sample (status \<open>published\<close>, \<open>published_at\<close> set) with the
  box ticked makes it visible again without any bulk action.
\<close>

theorem admin_change_restores_visibility: "\<not> is_published unpublished_article \<and> published_at unpublished_article = Some 500
  \<and> status unpublished_article = Published
  \<and> visible (ArticleAdmin_change id 900 moderator
       ((admin_form_of unpublished_article)\<lparr>admin_is_published := True\<rparr>) unpublished_article)"
  by (simp add: ArticleAdmin_change_def ArticleAdmin_save_model_def admin_form_of_def visible_def
      save_is_published unpublished_article_def published_article_def draft_article_def)

text \<open>
  Claim C10, amended. For an article left with \<open>is_published = False\<close> and a non-null
  \<open>published_at\<close>, a save does not set \<open>is_published\<close>, even when the status is
  \<open>published\<close>; no run of article-form edits, page views, shares, bulk unpublish actions
  and bulk publish actions on other articles makes it visible or moves its
  \<open>published_at\<close>; the bulk action \<open>publish_articles\<close> on it by a staff member makes it
  visible. (The other way back is the \<open>ArticleAdmin\<close> change form, which writes
  \<open>is_published\<close> and \<open>published_at\<close> directly.)
\<close>

theorem unpublished_stays_hidden:
  "a \<in> set table \<Longrightarrow> distinct (map pk table) \<Longrightarrow> \<not> is_published a \<Longrightarrow> published_at a = Some t \<Longrightarrow>
   \<forall>op \<in> set ops. \<not> publishes (pk a) op \<Longrightarrow> staff_member request_user \<Longrightarrow>
     \<not> is_published (save slugify now (a\<lparr>status := Published\<rparr>))
     \<and> (\<exists>r \<in> set (run_ops slugify ops table). pk r = pk a)
     \<and> (\<forall>r \<in> set (run_ops slugify ops table).
           pk r = pk a \<longrightarrow> \<not> is_published r \<and> published_at r = Some t \<and> \<not> visible r)
     \<and> (\<exists>r \<in> set (admin_bulk_actions request_user POST ''publish_articles'' [pk a] now
                       (run_ops slugify ops table)). pk r = pk a)
     \<and> (\<forall>r \<in> set (admin_bulk_actions request_user POST ''publish_articles'' [pk a] now
                       (run_ops slugify ops table)).
           pk r = pk a \<longrightarrow> visible r)"
proof -
  assume a: "a \<in> set table" and d: "distinct (map pk table)" and np: "\<not> is_published a"
    and pa: "published_at a = Some t" and ops: "\<forall>op \<in> set ops. \<not> publishes (pk a) op"
    and staff: "staff_member request_user"
  let ?after = "run_ops slugify ops table"
  let ?republished = "admin_bulk_actions request_user POST ''publish_articles'' [pk a] now ?after"
  have h0: "hidden (pk a) t table"
    unfolding hidden_def
  proof (intro ballI impI)
    fix r assume "r \<in> set table" "pk r = pk a"
    with a d have "r = a" by (meson distinct_map inj_onD)
    with np pa show "\<not> is_published r \<and> published_at r = Some t" by simp
  qed
  have h: "hidden (pk a) t ?after"
    using h0 ops by (rule run_ops_hidden)
  have one: "\<not> is_published (save slugify now (a\<lparr>status := Published\<rparr>))"
    using np pa by (simp add: save_is_published)
  have "pk a \<in> set (map pk ?after)"
    using a by (simp add: run_ops_keys)
  then have two: "\<exists>r \<in> set ?after. pk r = pk a"
    by auto
  have three: "\<forall>r \<in> set ?after.
           pk r = pk a \<longrightarrow> \<not> is_published r \<and> published_at r = Some t \<and> \<not> visible r"
    using h by (auto simp: hidden_def visible_def)
  have "map pk ?republished = map pk ?after"
    using apply_op_keys[of slugify "Bulk request_user POST ''publish_articles'' [pk a] now" ?after]
    by simp
  with \<open>pk a \<in> set (map pk ?after)\<close> have "pk a \<in> set (map pk ?republished)"
    by simp
  then have four: "\<exists>r \<in> set ?republished. pk r = pk a"
    by auto
  have five: "\<forall>r \<in> set ?republished. pk r = pk a \<longrightarrow> visible r"
    using bulk_publish_visible[OF staff, of "pk a" "[pk a]"] by auto
  from one two three four five show ?thesis by blast
qed

text \<open>
  The unpublished sample stays hidden through \<open>sample_ops\<close> and is visible after a bulk
  publish at 990.
\<close>

theorem unpublished_stays_hidden_witness:
  "\<not> is_published (save id 990 (unpublished_article\<lparr>status := Published\<rparr>))
   \<and> list_ex (\<lambda>r. pk r = 4) (run_ops id sample_ops [published_article, unpublished_article])
   \<and> \<not> list_ex (\<lambda>r. pk r = 4 \<and> visible r)
         (run_ops id sample_ops [published_article, unpublished_article])
   \<and> list_ex (\<lambda>r. pk r = 4 \<and> visible r)
        (admin_bulk_actions (Some moderator) POST ''publish_articles'' [4] 990
           (run_ops id sample_ops [published_article, unpublished_article]))"
proof -
  have key: "pk unpublished_article = 4"
    by (simp add: unpublished_article_def)
  have mem: "unpublished_article \<in> set [published_article, unpublished_article]"
    by simp
  have keys: "distinct (map pk [published_article, unpublished_article])"
    by (simp add: unpublished_article_def published_article_def)
  have state: "\<not> is_published unpublished_article" "published_at unpublished_article = Some 500"
    by (simp_all add: unpublished_article_def published_article_def)
  have ops: "\<forall>op \<in> set sample_ops. \<not> publishes (pk unpublished_article) op"
    by (simp add: sample_ops_def key)
  have staff: "staff_member (Some moderator)"
    by (simp add: staff_member_def moderator_def)
  note inst = unpublished_stays_hidden[OF mem keys state ops staff, of id 990, unfolded key]
  from inst have one: "\<not> is_published (save id 990 (unpublished_article\<lparr>status := Published\<rparr>))"
    by blast
  from inst have two: "list_ex (\<lambda>r. pk r = 4) (run_ops id sample_ops [published_article, unpublished_article])"
    unfolding list_ex_iff by blast
  from inst have three: "\<not> list_ex (\<lambda>r. pk r = 4 \<and> visible r)
         (run_ops id sample_ops [published_article, unpublished_article])"
    unfolding list_ex_iff by blast
  from inst have four: "list_ex (\<lambda>r. pk r = 4 \<and> visible r)
        (admin_bulk_actions (Some moderator) POST ''publish_articles'' [4] 990
           (run_ops id sample_ops [published_article, unpublished_article]))"
    unfolding list_ex_iff by blast
  from one two three four show ?thesis by blast
qed

end
